theory Spec2Isabelle
  imports Complex_Main
begin

section \<open>DataJoint relations: a shallow embedding of \<open>datajoint/relation.py\<close>\<close>

text \<open>
  The theory follows \<open>class Relation\<close> method by method. A relation object and the
  connection it borrows are records that every method takes and returns; an exception
  is the left summand of the result, returned together with the state reached when it
  was raised (a Python exception undoes nothing). Output of \<open>print\<close> and of the logger
  is not part of the model, and every query is accepted by the connection.
\<close>

subsection \<open>Collaborators of the relation\<close>

text \<open>
  Modelled from the spec: the Heading (\<open>datajoint/heading.py\<close> is not among the
  sources). It is an ordered mapping from attribute names to descriptors, empty until
  resolved; iteration yields the names in column order.
\<close>

record attribute =
  attr_name :: string
  attr_type :: string
  is_blob :: bool
  nullable :: bool

type_synonym heading = "attribute list"

definition heading_names :: "heading \<Rightarrow> string list" where
  "heading_names h = map attr_name h"

definition heading_bool :: "heading \<Rightarrow> bool" where
  "heading_bool h = (h \<noteq> [])"

definition heading_contains :: "heading \<Rightarrow> string \<Rightarrow> bool" where
  "heading_contains h n = (n \<in> set (heading_names h))"

text \<open>\<open>heading[name].is_blob\<close>; the source only evaluates it for names it got from
  iterating the heading, so the lookup never misses there.\<close>

definition heading_is_blob :: "heading \<Rightarrow> string \<Rightarrow> bool" where
  "heading_is_blob h n = (case find (\<lambda>a. attr_name a = n) h of
       Some a \<Rightarrow> is_blob a | None \<Rightarrow> False)"

text \<open>
  Modelled from the spec: the connection. \<open>query(sql, args)\<close> appends to the log of
  issued queries. The server behind it is a catalogue of tables, each with its columns and
  its storage statistics; rows are not modelled. The queries that helpers outside the
  sources issue (\<open>Heading.init_from_database\<close>, \<open>len(relation)\<close>) are logged under
  constructors of their own, since their text is not in the sources.
\<close>

datatype 'b query =
    Query string "'b list"
  | HeadingQuery string string
  | LenQuery string

record table_info =
  columns :: heading
  data_length :: int
  index_length :: int

record ('b, 'e) connection =
  queries :: "'b query list"
  tables :: "string \<times> string \<Rightarrow> table_info option"
  erd :: 'e
  prompts :: "string list"

definition query :: "string \<Rightarrow> 'b list \<Rightarrow> ('b, 'e) connection \<Rightarrow> ('b, 'e) connection" where
  "query sql args c = c\<lparr>queries := queries c @ [Query sql args]\<rparr>"

text \<open>
  What the sources import and this theory takes as parameters: the global
  \<open>config['safemode']\<close>, the user's answer to a prompt (\<open>utils.user_choice\<close> with
  its message and default), Python's \<open>repr\<close>, \<open>blob.pack\<close>, and the two methods
  of the dependency graph that the relation calls.
\<close>

record ('v, 'b, 'e) env =
  safemode :: bool
  user_choice :: "string \<Rightarrow> string \<Rightarrow> string"
  repr :: "'v \<Rightarrow> string"
  pack :: "'v \<Rightarrow> 'b"
  get_descendants :: "'e \<Rightarrow> string \<Rightarrow> string list"
  clear_dependency :: "'e \<Rightarrow> string \<Rightarrow> 'e"

datatype error =
    KeyError string
  | DataJointError
  | TypeError
  | ValueError

subsection \<open>The relation object\<close>

text \<open>\<open>priv_heading\<close> is the attribute \<open>_heading\<close>; \<open>where_clause\<close> comes from
  \<open>RelationalOperand\<close>, which is not among the sources, and is a field here.\<close>

record relation =
  database :: string
  table_name :: string
  priv_heading :: heading
  where_clause :: string

definition full_table_name :: "relation \<Rightarrow> string" where
  "full_table_name r = ''`'' @ database r @ ''`.`'' @ table_name r @ ''`''"

definition from_clause :: "relation \<Rightarrow> string" where
  "from_clause r = full_table_name r"

definition is_declared :: "relation \<Rightarrow> ('b, 'e) connection \<Rightarrow> bool \<times> ('b, 'e) connection" where
  "is_declared r c =
     (let c' = query (''SHOW TABLES in `'' @ database r @ ''`LIKE \"'' @ table_name r @ ''\"'') [] c
      in (tables c' (database r, table_name r) \<noteq> None, c'))"

text \<open>Modelled from the spec: \<open>Heading.init_from_database\<close> issues one metadata query
  and fills the heading with the columns of the table.\<close>

definition init_from_database ::
  "string \<Rightarrow> string \<Rightarrow> ('b, 'e) connection \<Rightarrow> heading \<times> ('b, 'e) connection" where
  "init_from_database db t c =
     (let c' = c\<lparr>queries := queries c @ [HeadingQuery db t]\<rparr>
      in (case tables c' (db, t) of Some ti \<Rightarrow> columns ti | None \<Rightarrow> [], c'))"

definition heading ::
  "relation \<Rightarrow> ('b, 'e) connection \<Rightarrow> heading \<times> relation \<times> ('b, 'e) connection" where
  "heading r c =
     (if \<not> heading_bool (priv_heading r) then
        (let (d, c1) = is_declared r c in
         if d then
           (let (h, c2) = init_from_database (database r) (table_name r) c1
            in (h, r\<lparr>priv_heading := h\<rparr>, c2))
         else (priv_heading r, r, c1))
      else (priv_heading r, r, c))"

subsection \<open>Size reporting\<close>

text \<open>\<open>fetchone()\<close> is \<open>None\<close> when the status query finds no table, and subscripting
  it raises \<open>TypeError\<close>. Python's \<open>/\<close> on two integers is the quotient rounded to the
  nearest double; the model keeps the exact quotient.\<close>

definition size_on_disk :: "relation \<Rightarrow> ('b, 'e) connection \<Rightarrow> (error + rat) \<times> ('b, 'e) connection" where
  "size_on_disk r c =
     (let c' = query (''SHOW TABLE STATUS FROM `'' @ database r @ ''` WHERE NAME=\"''
                        @ table_name r @ ''\"'') [] c
      in case tables c' (database r, table_name r) of
           None \<Rightarrow> (Inl TypeError, c')
         | Some ret \<Rightarrow> (Inr (of_int (data_length ret + index_length ret) / 1024 ^ 2), c'))"

subsection \<open>Insert\<close>

text \<open>
  The argument of \<open>insert\<close>: a numpy structured scalar (\<open>np.void\<close> with its
  \<open>dtype.fields\<close>), a \<open>Mapping\<close>, or a value of any other type. Fields are kept
  in the order the input iterates them. \<open>RawVoid\<close> is an \<open>np.void\<close> without fields,
  whose \<open>dtype.fields\<close> is \<open>None\<close> and cannot be iterated.
\<close>

datatype 'v tup =
    Void "(string \<times> 'v) list"
  | RawVoid
  | Mapping "(string \<times> 'v) list"
  | Other

fun join :: "string \<Rightarrow> string list \<Rightarrow> string" where
  "join sep [] = []"
| "join sep [x] = x"
| "join sep (x # y # ys) = x @ sep @ join sep (y # ys)"

text \<open>The first field name of the input that the heading does not contain, for which
  the validation loop raises.\<close>

definition unknown_field :: "heading \<Rightarrow> string list \<Rightarrow> string option" where
  "unknown_field h fieldnames = find (\<lambda>fieldname. \<not> heading_contains h fieldname) fieldnames"

definition value_list :: "('v, 'b, 'e) env \<Rightarrow> heading \<Rightarrow> (string \<times> 'v) list \<Rightarrow> string" where
  "value_list env h fs =
     join '','' [if \<not> heading_is_blob h name then repr env (the (map_of fs name)) else ''%s''.
                 name \<leftarrow> heading_names h, name \<in> set (map fst fs)]"

definition insert_args :: "('v, 'b, 'e) env \<Rightarrow> heading \<Rightarrow> (string \<times> 'v) list \<Rightarrow> 'b list" where
  "insert_args env h fs =
     [pack env (the (map_of fs name)).
        name \<leftarrow> heading_names h, name \<in> set (map fst fs) \<and> heading_is_blob h name]"

definition attribute_list :: "heading \<Rightarrow> (string \<times> 'v) list \<Rightarrow> string" where
  "attribute_list h fs =
     ''`'' @ join ''`,`'' [name. name \<leftarrow> heading_names h, name \<in> set (map fst fs)] @ ''`''"

definition insert_verb :: "bool \<Rightarrow> bool \<Rightarrow> string" where
  "insert_verb ignore_errors replace =
     (if replace then ''REPLACE'' else if ignore_errors then ''INSERT IGNORE'' else ''INSERT'')"

definition insert_sql :: "('v, 'b, 'e) env \<Rightarrow> relation \<Rightarrow> heading \<Rightarrow> (string \<times> 'v) list \<Rightarrow> bool \<Rightarrow> bool \<Rightarrow> string" where
  "insert_sql env r h fs ignore_errors replace =
     insert_verb ignore_errors replace @ '' INTO '' @ from_clause r
       @ '' ('' @ attribute_list h fs @ '') VALUES ('' @ value_list env h fs @ '')''"

definition insert_rel ::
  "('v, 'b, 'e) env \<Rightarrow> relation \<Rightarrow> 'v tup \<Rightarrow> bool \<Rightarrow> bool \<Rightarrow> ('b, 'e) connection
     \<Rightarrow> (error + unit) \<times> relation \<times> ('b, 'e) connection" where
  "insert_rel env r t ignore_errors replace c =
     (let (h, r1, c1) = heading r c in
      case t of
        Void fs \<Rightarrow>
          (case unknown_field h (map fst fs) of
             Some fieldname \<Rightarrow> (Inl (KeyError fieldname), r1, c1)
           | None \<Rightarrow> (Inr (), r1,
               query (insert_sql env r1 h fs ignore_errors replace) (insert_args env h fs) c1))
      | RawVoid \<Rightarrow> (Inl TypeError, r1, c1)
      | Mapping fs \<Rightarrow>
          (case unknown_field h (map fst fs) of
             Some fieldname \<Rightarrow> (Inl (KeyError fieldname), r1, c1)
           | None \<Rightarrow> (Inr (), r1,
               query (insert_sql env r1 h fs ignore_errors replace) (insert_args env h fs) c1))
      | Other \<Rightarrow> (Inl DataJointError, r1, c1))"

fun iter_insert ::
  "('v, 'b, 'e) env \<Rightarrow> relation \<Rightarrow> 'v tup list \<Rightarrow> bool \<Rightarrow> bool \<Rightarrow> ('b, 'e) connection
     \<Rightarrow> (error + unit) \<times> relation \<times> ('b, 'e) connection" where
  "iter_insert env r [] ignore_errors replace c = (Inr (), r, c)"
| "iter_insert env r (row # rows) ignore_errors replace c =
     (case insert_rel env r row ignore_errors replace c of
        (Inl e, r', c') \<Rightarrow> (Inl e, r', c')
      | (Inr u, r', c') \<Rightarrow> iter_insert env r' rows ignore_errors replace c')"

definition batch_insert ::
  "('v, 'b, 'e) env \<Rightarrow> relation \<Rightarrow> 'v tup list \<Rightarrow> bool \<Rightarrow> bool \<Rightarrow> ('b, 'e) connection
     \<Rightarrow> (error + unit) \<times> relation \<times> ('b, 'e) connection" where
  "batch_insert env r data ignore_errors replace c = iter_insert env r data ignore_errors replace c"

subsection \<open>Delete\<close>

definition delete_quick :: "relation \<Rightarrow> ('b, 'e) connection \<Rightarrow> ('b, 'e) connection" where
  "delete_quick r c = query (''DELETE FROM '' @ from_clause r @ where_clause r) [] c"

text \<open>\<open>prompt\<close> records that \<open>user_choice\<close> was called with a message and returns the
  user's answer; \<open>or\<close> does not evaluate it when safe mode is off.\<close>

definition prompt ::
  "('v, 'b, 'e) env \<Rightarrow> string \<Rightarrow> string \<Rightarrow> ('b, 'e) connection \<Rightarrow> string \<times> ('b, 'e) connection" where
  "prompt env msg dflt c = (user_choice env msg dflt, c\<lparr>prompts := prompts c @ [msg]\<rparr>)"

definition delete_msg :: string where
  "delete_msg = ''You are about to delete data from a table. This operation cannot be undone.''
                 @ [CHR 0x0A] @ ''Proceed?''"

definition delete_rel :: "('v, 'b, 'e) env \<Rightarrow> relation \<Rightarrow> ('b, 'e) connection \<Rightarrow> ('b, 'e) connection" where
  "delete_rel env r c =
     (if \<not> safemode env then delete_quick r c
      else (let (answer, c1) = prompt env delete_msg ''no'' c in
            if answer = ''yes'' then delete_quick r c1 else c1))"

subsection \<open>Free relations and descendants\<close>

text \<open>\<open>str.split\<close> with a one-character separator and \<open>str.strip\<close> with a
  one-character set, as \<open>FreeRelation.__init__\<close> uses them.\<close>

fun split :: "char \<Rightarrow> string \<Rightarrow> string list" where
  "split sep [] = [[]]"
| "split sep (x # xs) =
     (if x = sep then [] # split sep xs
      else (case split sep xs of [] \<Rightarrow> [[x]] | w # ws \<Rightarrow> (x # w) # ws))"





subsection \<open>Drop\<close>







subsection \<open>Reading the log and the catalogue\<close>

text \<open>The queries issued between two states of the connection.\<close>

definition issued :: "('b, 'e) connection \<Rightarrow> ('b, 'e) connection \<Rightarrow> 'b query list" where
  "issued c c' = List.drop (length (queries c)) (queries c')"

definition is_insert_statement :: "'b query \<Rightarrow> bool" where
  "is_insert_statement q =
     (case q of Query sql args \<Rightarrow> take 7 sql = ''INSERT '' \<or> take 8 sql = ''REPLACE ''
              | HeadingQuery db t \<Rightarrow> False
              | LenQuery t \<Rightarrow> False)"

definition is_drop_statement :: "'b query \<Rightarrow> bool" where
  "is_drop_statement q =
     (case q of Query sql args \<Rightarrow> take 11 sql = ''DROP TABLE ''
              | HeadingQuery db t \<Rightarrow> False
              | LenQuery t \<Rightarrow> False)"



text \<open>The heading's iteration order restricted to the fields present in the input.\<close>

definition present_columns :: "heading \<Rightarrow> (string \<times> 'v) list \<Rightarrow> string list" where
  "present_columns h fs = filter (\<lambda>name. name \<in> fst ` set fs) (heading_names h)"

text \<open>An input all of whose field names are in the heading.\<close>

definition known_fields :: "heading \<Rightarrow> (string \<times> 'v) list \<Rightarrow> bool" where
  "known_fields h fs = list_all (heading_contains h) (map fst fs)"

text \<open>The fields of an input that has any.\<close>

definition tup_fields :: "'v tup \<Rightarrow> (string \<times> 'v) list" where
  "tup_fields t = (case t of Void fs \<Rightarrow> fs | RawVoid \<Rightarrow> [] | Mapping fs \<Rightarrow> fs | Other \<Rightarrow> [])"

text \<open>
  The spec's words for batch insertion, to compare \<open>iter_insert\<close> with: successive calls
  of the single-row insert with the same keyword arguments, in sequence order, where a
  call that raises ends the sequence.
\<close>

definition then_insert ::
  "('v, 'b, 'e) env \<Rightarrow> bool \<Rightarrow> bool \<Rightarrow> (error + unit) \<times> relation \<times> ('b, 'e) connection \<Rightarrow> 'v tup
     \<Rightarrow> (error + unit) \<times> relation \<times> ('b, 'e) connection" where
  "then_insert env ignore_errors replace acc row =
     (case acc of
        (Inl e, r, c) \<Rightarrow> (Inl e, r, c)
      | (Inr u, r, c) \<Rightarrow> insert_rel env r row ignore_errors replace c)"

definition successive_inserts ::
  "('v, 'b, 'e) env \<Rightarrow> relation \<Rightarrow> 'v tup list \<Rightarrow> bool \<Rightarrow> bool \<Rightarrow> ('b, 'e) connection
     \<Rightarrow> (error + unit) \<times> relation \<times> ('b, 'e) connection" where
  "successive_inserts env r rows ignore_errors replace c =
     foldl (then_insert env ignore_errors replace) (Inr (), r, c) rows"



subsection \<open>A laboratory database\<close>

text \<open>Three tables in a chain of foreign keys, \<open>scan\<close> into \<open>session\<close> into
  \<open>subject\<close>, for the concrete instances below.\<close>

definition ex_heading :: heading where
  "ex_heading =
     [\<lparr>attr_name = ''subject_id'', attr_type = ''int'', is_blob = False, nullable = False\<rparr>,
      \<lparr>attr_name = ''species'', attr_type = ''varchar(30)'', is_blob = False, nullable = False\<rparr>,
      \<lparr>attr_name = ''photo'', attr_type = ''longblob'', is_blob = True, nullable = True\<rparr>]"

definition ex_env :: "bool \<Rightarrow> string \<Rightarrow> (string, string, string list) env" where
  "ex_env safe answer =
     \<lparr>safemode = safe, user_choice = (\<lambda>msg dflt. answer),
      repr = (\<lambda>v. [CHR 0x27] @ v @ [CHR 0x27]), pack = (\<lambda>v. ''mYm'' @ v),
      get_descendants = (\<lambda>e name. dropWhile (\<lambda>n. n \<noteq> name) e),
      clear_dependency = (\<lambda>e name. removeAll name e)\<rparr>"

definition ex_conn :: "(string, string list) connection" where
  "ex_conn =
     \<lparr>queries = [],
      tables = [(''lab'', ''subject'') \<mapsto> \<lparr>columns = ex_heading, data_length = 1073741824, index_length = 0\<rparr>,
                (''lab'', ''session'') \<mapsto> \<lparr>columns = ex_heading, data_length = 16384, index_length = 16384\<rparr>,
                (''lab'', ''scan'') \<mapsto> \<lparr>columns = ex_heading, data_length = 16384, index_length = 0\<rparr>],
      erd = [''`lab`.`subject`'', ''`lab`.`session`'', ''`lab`.`scan`''],
      prompts = []\<rparr>"


definition subject :: relation where
  "subject = \<lparr>database = ''lab'', table_name = ''subject'', priv_heading = [], where_clause = []\<rparr>"

definition subject_loaded :: relation where
  "subject_loaded = subject\<lparr>priv_heading := ex_heading\<rparr>"

definition mouse :: "string \<Rightarrow> relation" where
  "mouse tn = \<lparr>database = ''lab'', table_name = tn, priv_heading = [], where_clause = []\<rparr>"

section \<open>Properties\<close>

subsection \<open>Size reporting\<close>

text \<open>
  C1. \<open>size_on_disk\<close> is documented to return the size in GiB, the byte counts
  divided by \<open>1024^3\<close>. The code divides by \<open>1024^2\<close>: for a table of one gibibyte
  of data and no index it issues its one status query and returns \<open>1024\<close>, not \<open>1\<close>.
\<close>

theorem size_on_disk_one_gibibyte:
  "size_on_disk subject ex_conn =
     (Inr 1024, ex_conn\<lparr>queries :=
        [Query ''SHOW TABLE STATUS FROM `lab` WHERE NAME=\"subject\"'' []]\<rparr>)
   \<and> fst (size_on_disk subject ex_conn) \<noteq> Inr (of_int (1073741824 + 0) / 1024 ^ 3)"
  by (simp add: size_on_disk_def subject_def ex_conn_def query_def)

subsection \<open>Heading resolution\<close>

lemma heading_loaded:
  "heading_bool (priv_heading r) \<Longrightarrow> heading r c = (priv_heading r, r, c)"
  by (simp add: heading_def)

lemma heading_relation:
  "heading r c = (h, r1, c1) \<Longrightarrow>
     database r1 = database r \<and> table_name r1 = table_name r \<and> where_clause r1 = where_clause r
     \<and> priv_heading r1 = h"
  by (auto simp: heading_def is_declared_def init_from_database_def query_def Let_def
           split: if_splits)

lemma heading_connection:
  "heading r c = (h, r1, c1) \<Longrightarrow>
     tables c1 = tables c \<and> erd c1 = erd c \<and> prompts c1 = prompts c"
  by (auto simp: heading_def is_declared_def init_from_database_def query_def Let_def
           split: if_splits)

lemma heading_queries:
  "heading r c = (h, r1, c1) \<Longrightarrow>
     \<exists>pre. queries c1 = queries c @ pre \<and> length pre \<le> 2
       \<and> filter is_insert_statement pre = [] \<and> filter is_drop_statement pre = []"
  by (auto simp: heading_def is_declared_def init_from_database_def query_def Let_def
                 is_insert_statement_def is_drop_statement_def
           split: if_splits)

lemma full_table_name_heading:
  "heading r c = (h, r1, c1) \<Longrightarrow> full_table_name r1 = full_table_name r"
  by (drule heading_relation) (simp add: full_table_name_def)

text \<open>
  C7. The heading accessor is lazy and caching. With the heading not yet loaded and the
  table in the catalogue, it issues the existence query and exactly one metadata query,
  returns the table's columns and caches them; every later access of that (non-empty)
  cached heading issues no query at all. With the table absent it issues the existence
  query only and returns the empty heading without raising. A loaded heading is returned
  with the connection untouched.
\<close>

theorem heading_lazy_cached:
  "(\<not> heading_bool (priv_heading r) \<and> tables c (database r, table_name r) = Some ti \<longrightarrow>
      heading r c = (columns ti, r\<lparr>priv_heading := columns ti\<rparr>,
        c\<lparr>queries := queries c @
          [Query (''SHOW TABLES in `'' @ database r @ ''`LIKE \"'' @ table_name r @ ''\"'') [],
           HeadingQuery (database r) (table_name r)]\<rparr>)
      \<and> (columns ti \<noteq> [] \<longrightarrow>
           (\<forall>c'. heading (r\<lparr>priv_heading := columns ti\<rparr>) c' = (columns ti, r\<lparr>priv_heading := columns ti\<rparr>, c'))))
   \<and> (\<not> heading_bool (priv_heading r) \<and> tables c (database r, table_name r) = None \<longrightarrow>
      heading r c = ([], r,
        c\<lparr>queries := queries c @
          [Query (''SHOW TABLES in `'' @ database r @ ''`LIKE \"'' @ table_name r @ ''\"'') []]\<rparr>))
   \<and> (heading_bool (priv_heading r) \<longrightarrow> heading r c = (priv_heading r, r, c))"
  by (simp add: heading_def is_declared_def query_def init_from_database_def heading_bool_def)

theorem heading_lazy_cached_witness:
  "heading subject ex_conn = (ex_heading, subject_loaded,
      ex_conn\<lparr>queries := [Query ''SHOW TABLES in `lab`LIKE \"subject\"'' [], HeadingQuery ''lab'' ''subject'']\<rparr>)
   \<and> heading subject_loaded (snd (snd (heading subject ex_conn))) = (ex_heading, subject_loaded, snd (snd (heading subject ex_conn)))
   \<and> heading (mouse ''weight'') ex_conn = ([], mouse ''weight'',
      ex_conn\<lparr>queries := [Query ''SHOW TABLES in `lab`LIKE \"weight\"'' []]\<rparr>)"
proof -
  have a: "heading subject ex_conn = (ex_heading, subject_loaded,
      ex_conn\<lparr>queries := [Query ''SHOW TABLES in `lab`LIKE \"subject\"'' [], HeadingQuery ''lab'' ''subject'']\<rparr>)"
    using heading_lazy_cached [of subject ex_conn "\<lparr>columns = ex_heading, data_length = 1073741824, index_length = 0\<rparr>"]
    apply (simp add: subject_def subject_loaded_def ex_conn_def heading_bool_def)
    apply (erule conjE)
    apply assumption
    done
  have b: "heading subject_loaded c = (ex_heading, subject_loaded, c)" for c :: "(string, string list) connection"
    using heading_lazy_cached [of subject_loaded c]
    by (simp add: subject_def subject_loaded_def heading_bool_def ex_heading_def)
  have c: "heading (mouse ''weight'') ex_conn = ([], mouse ''weight'',
      ex_conn\<lparr>queries := [Query ''SHOW TABLES in `lab`LIKE \"weight\"'' []]\<rparr>)"
    using heading_lazy_cached [of "mouse ''weight''" ex_conn]
    by (simp add: mouse_def ex_conn_def heading_bool_def)
  show ?thesis using a b c by simp
qed

subsection \<open>Insert: the generated statement\<close>

lemma comprehension_filter:
  "concat (map (\<lambda>x. if P x then [f x] else []) xs) = map f (filter P xs)"
  by (induction xs) simp_all

lemma known_fields_unknown_field:
  "known_fields h fs \<Longrightarrow> unknown_field h (map fst fs) = None"
  by (simp add: known_fields_def unknown_field_def find_None_iff list_all_iff)

lemma insert_rel_known:
  assumes "t = Mapping fs \<or> t = Void fs"
    and "heading r c = (h, r1, c1)"
    and "known_fields h fs"
  shows "insert_rel env r t ignore_errors replace c =
           (Inr (), r1, query (insert_sql env r1 h fs ignore_errors replace) (insert_args env h fs) c1)"
  using assms by (auto simp: insert_rel_def known_fields_unknown_field)

lemma value_list_cells:
  "value_list env h fs =
     join '','' (map (\<lambda>name. if heading_is_blob h name then ''%s'' else repr env (the (map_of fs name)))
                  (present_columns h fs))"
proof -
  have swap: "(if \<not> b then x else y) = (if b then y else x)" for b and x y :: string
    by simp
  show ?thesis
    unfolding value_list_def present_columns_def
    by (simp add: comprehension_filter [symmetric] swap cong: if_cong)
qed

lemma attribute_list_columns:
  "attribute_list h fs = ''`'' @ join ''`,`'' (present_columns h fs) @ ''`''"
  unfolding attribute_list_def present_columns_def
  using comprehension_filter [of "\<lambda>name. name \<in> fst ` set fs" "\<lambda>name. name" "heading_names h"]
  by simp

lemma insert_args_blobs:
  "insert_args env h fs =
     map (\<lambda>name. pack env (the (map_of fs name))) (filter (heading_is_blob h) (present_columns h fs))"
  unfolding insert_args_def present_columns_def
  using comprehension_filter [of "\<lambda>name. name \<in> fst ` set fs \<and> heading_is_blob h name"
           "\<lambda>name. pack env (the (map_of fs name))" "heading_names h"]
  by (simp add: conj_commute)

lemma map_of_eq_fields:
  "map_of fs' = map_of fs \<Longrightarrow> fst ` set fs' = fst ` set fs"
  by (metis dom_map_of_conv_image_fst)

lemma insert_parts_map_of:
  assumes "map_of fs' = map_of fs"
  shows "value_list env h fs' = value_list env h fs"
    and "attribute_list h (fs' :: (string \<times> 'v) list) = attribute_list h fs"
    and "insert_args env h fs' = insert_args env h fs"
    and "known_fields h fs' = known_fields h fs"
proof -
  have f: "fst ` set fs' = fst ` set fs"
    by (rule map_of_eq_fields [OF assms])
  have p: "present_columns h fs' = present_columns h fs"
    by (simp add: present_columns_def f)
  show "value_list env h fs' = value_list env h fs"
    by (simp only: value_list_cells p assms)
  show "attribute_list h fs' = attribute_list h fs"
    by (simp only: attribute_list_columns p)
  show "insert_args env h fs' = insert_args env h fs"
    by (simp only: insert_args_blobs p assms)
  show "known_fields h fs' = known_fields h fs"
    using f by (simp add: known_fields_def list_all_iff)
qed

text \<open>
  C4. For a mapping or structured row all of whose fields are in the heading, the insert
  succeeds and its one statement lists, in the attribute list and in the VALUES list alike,
  the heading's columns in the heading's iteration order restricted to the fields present
  in the input: the attribute list holds the names of these columns, the VALUES list holds
  at the same position the cell of that column (the placeholder for a blob, the literal of
  the input's value for that name otherwise), and the arguments are the packed blob values
  in the same order. Any other input with the same field-to-value mapping, whatever its own
  field order, yields exactly the same result.
\<close>

theorem insert_column_order:
  assumes "t = Mapping fs \<and> t' = Mapping fs' \<or> t = Void fs \<and> t' = Void fs'"
    and "heading r c = (h, r1, c1)"
    and "known_fields h fs"
    and "map_of fs' = map_of fs"
  shows "insert_rel env r t ignore_errors replace c =
           (Inr (), r1,
            query (insert_verb ignore_errors replace @ '' INTO '' @ full_table_name r
                     @ '' (`'' @ join ''`,`'' (present_columns h fs)
                     @ ''`) VALUES (''
                     @ join '','' (map (\<lambda>name. if heading_is_blob h name then ''%s''
                                               else repr env (the (map_of fs name)))
                                     (present_columns h fs))
                     @ '')'')
                  (map (\<lambda>name. pack env (the (map_of fs name)))
                       (filter (heading_is_blob h) (present_columns h fs))) c1)
         \<and> insert_rel env r t' ignore_errors replace c = insert_rel env r t ignore_errors replace c"
proof -
  have t: "t = Mapping fs \<or> t = Void fs" and t': "t' = Mapping fs' \<or> t' = Void fs'"
    using assms(1) by auto
  have k': "known_fields h fs'"
    using assms(3) by (simp only: insert_parts_map_of(4) [OF assms(4)])
  have sql: "insert_sql env r1 h fs' ignore_errors replace = insert_sql env r1 h fs ignore_errors replace"
    by (simp only: insert_sql_def insert_parts_map_of(1,2) [OF assms(4)])
  have a: "insert_rel env r t ignore_errors replace c =
           (Inr (), r1, query (insert_sql env r1 h fs ignore_errors replace) (insert_args env h fs) c1)"
    by (rule insert_rel_known [OF t assms(2,3)])
  have b: "insert_rel env r t' ignore_errors replace c =
           (Inr (), r1, query (insert_sql env r1 h fs' ignore_errors replace) (insert_args env h fs') c1)"
    by (rule insert_rel_known [OF t' assms(2) k'])
  have c: "insert_sql env r1 h fs ignore_errors replace =
             insert_verb ignore_errors replace @ '' INTO '' @ full_table_name r
               @ '' (`'' @ join ''`,`'' (present_columns h fs)
               @ ''`) VALUES (''
               @ join '','' (map (\<lambda>name. if heading_is_blob h name then ''%s''
                                        else repr env (the (map_of fs name))) (present_columns h fs))
               @ '')''"
    by (simp add: insert_sql_def from_clause_def full_table_name_heading [OF assms(2)]
          attribute_list_columns value_list_cells)
  have d: "insert_rel env r t' ignore_errors replace c = insert_rel env r t ignore_errors replace c"
    unfolding a b sql insert_parts_map_of(3) [OF assms(4)] by (rule refl)
  have e: "insert_rel env r t ignore_errors replace c =
           (Inr (), r1,
            query (insert_verb ignore_errors replace @ '' INTO '' @ full_table_name r
                     @ '' (`'' @ join ''`,`'' (present_columns h fs)
                     @ ''`) VALUES (''
                     @ join '','' (map (\<lambda>name. if heading_is_blob h name then ''%s''
                                               else repr env (the (map_of fs name)))
                                     (present_columns h fs))
                     @ '')'')
                  (map (\<lambda>name. pack env (the (map_of fs name)))
                       (filter (heading_is_blob h) (present_columns h fs))) c1)"
    unfolding a c insert_args_blobs by (rule refl)
  show ?thesis
    using e d by (rule conjI)
qed

theorem insert_column_order_witness:
  "known_fields ex_heading [(''photo'', ''xx''), (''species'', ''mouse''), (''subject_id'', ''7'')]
   \<and> present_columns ex_heading [(''photo'', ''xx''), (''species'', ''mouse''), (''subject_id'', ''7'')]
       = [''subject_id'', ''species'', ''photo'']
   \<and> insert_rel (ex_env False ''no'') subject_loaded
        (Mapping [(''photo'', ''xx''), (''species'', ''mouse''), (''subject_id'', ''7'')]) False False ex_conn
     = (Inr (), subject_loaded,
        ex_conn\<lparr>queries :=
          [Query ''INSERT INTO `lab`.`subject` (`subject_id`,`species`,`photo`) VALUES ('7','mouse',%s)''
             [''mYmxx'']]\<rparr>)
   \<and> insert_rel (ex_env False ''no'') subject_loaded
        (Mapping [(''species'', ''mouse''), (''subject_id'', ''7''), (''photo'', ''xx'')]) False False ex_conn
     = (Inr (), subject_loaded,
        ex_conn\<lparr>queries :=
          [Query ''INSERT INTO `lab`.`subject` (`subject_id`,`species`,`photo`) VALUES ('7','mouse',%s)''
             [''mYmxx'']]\<rparr>)"
proof -
  let ?fs = "[(''photo'', ''xx''), (''species'', ''mouse''), (''subject_id'', ''7'')]"
  let ?fs' = "[(''species'', ''mouse''), (''subject_id'', ''7''), (''photo'', ''xx'')]"
  have h: "heading subject_loaded ex_conn = (ex_heading, subject_loaded, ex_conn)"
    by (simp add: heading_def subject_loaded_def subject_def heading_bool_def ex_heading_def)
  have k: "known_fields ex_heading ?fs"
    by (simp add: known_fields_def heading_contains_def heading_names_def ex_heading_def)
  have m: "map_of ?fs' = map_of ?fs"
    by (rule ext) simp
  have t: "Mapping ?fs = Mapping ?fs \<and> Mapping ?fs' = Mapping ?fs'
           \<or> Mapping ?fs = Void ?fs \<and> Mapping ?fs' = Void ?fs'"
    by simp
  have p: "present_columns ex_heading ?fs = [''subject_id'', ''species'', ''photo'']"
    by (simp add: present_columns_def heading_names_def ex_heading_def)
  note inst = insert_column_order [OF t h k m, of "ex_env False ''no''" False False]
  have e: "insert_rel (ex_env False ''no'') subject_loaded (Mapping ?fs) False False ex_conn
     = (Inr (), subject_loaded,
        ex_conn\<lparr>queries :=
          [Query ''INSERT INTO `lab`.`subject` (`subject_id`,`species`,`photo`) VALUES ('7','mouse',%s)''
             [''mYmxx'']]\<rparr>)"
    apply (subst inst [THEN conjunct1])
    apply (simp only: p)
    apply (simp add: insert_verb_def full_table_name_def subject_loaded_def subject_def
          heading_is_blob_def ex_heading_def ex_env_def query_def ex_conn_def)
    done
  have e': "insert_rel (ex_env False ''no'') subject_loaded (Mapping ?fs') False False ex_conn
     = (Inr (), subject_loaded,
        ex_conn\<lparr>queries :=
          [Query ''INSERT INTO `lab`.`subject` (`subject_id`,`species`,`photo`) VALUES ('7','mouse',%s)''
             [''mYmxx'']]\<rparr>)"
    by (simp only: inst [THEN conjunct2] e)
  show ?thesis
    using k p e e' by (intro conjI)
qed

text \<open>
  C5. For a mapping or structured row all of whose fields are in the heading, the VALUES
  clause holds, per present column in heading order, the placeholder \<open>%s\<close> for a blob
  attribute and the \<open>repr\<close> literal of the value for any other attribute; the argument
  sequence is exactly the packed values of the present blob columns, in heading order.
  The statement text does not depend on the blob values: an input with the same fields that
  differs only in the values of blob attributes yields the same text.
\<close>

theorem insert_blob_encoding:
  assumes "t = Mapping fs \<and> t' = Mapping fs' \<or> t = Void fs \<and> t' = Void fs'"
    and "heading r c = (h, r1, c1)"
    and "known_fields h fs"
    and "map fst fs' = map fst fs"
    and "\<forall>name. \<not> heading_is_blob h name \<longrightarrow> map_of fs' name = map_of fs name"
  shows "insert_rel env r t ignore_errors replace c =
           (Inr (), r1,
            query (insert_verb ignore_errors replace @ '' INTO '' @ full_table_name r
                     @ '' ('' @ attribute_list h fs @ '') VALUES (''
                     @ join '','' (map (\<lambda>name. if heading_is_blob h name then ''%s''
                                               else repr env (the (map_of fs name)))
                                     (present_columns h fs))
                     @ '')'')
                  (map (\<lambda>name. pack env (the (map_of fs name)))
                       (filter (heading_is_blob h) (present_columns h fs))) c1)
         \<and> (\<exists>args'. insert_rel env r t' ignore_errors replace c =
               (Inr (), r1,
                query (insert_verb ignore_errors replace @ '' INTO '' @ full_table_name r
                     @ '' ('' @ attribute_list h fs @ '') VALUES (''
                     @ join '','' (map (\<lambda>name. if heading_is_blob h name then ''%s''
                                               else repr env (the (map_of fs name)))
                                     (present_columns h fs))
                     @ '')'') args' c1))"
proof -
  have t: "t = Mapping fs \<or> t = Void fs" and t': "t' = Mapping fs' \<or> t' = Void fs'"
    using assms(1) by auto
  have k': "known_fields h fs'"
    using assms(3,4) by (simp add: known_fields_def)
  have cols: "present_columns h fs' = present_columns h fs"
    using arg_cong [OF assms(4), of set] by (simp add: present_columns_def)
  have cells: "map (\<lambda>name. if heading_is_blob h name then ''%s''
                                               else repr env (the (map_of fs' name)))
                                     (present_columns h fs) =
               map (\<lambda>name. if heading_is_blob h name then ''%s''
                                               else repr env (the (map_of fs name)))
                                     (present_columns h fs)"
    using assms(5) by simp
  have attrs: "attribute_list h fs' = attribute_list h fs"
    by (simp add: attribute_list_columns cols)
  have a: "insert_rel env r t ignore_errors replace c =
           (Inr (), r1, query (insert_sql env r1 h fs ignore_errors replace) (insert_args env h fs) c1)"
    by (rule insert_rel_known [OF t assms(2,3)])
  have b: "insert_rel env r t' ignore_errors replace c =
           (Inr (), r1, query (insert_sql env r1 h fs' ignore_errors replace) (insert_args env h fs') c1)"
    by (rule insert_rel_known [OF t' assms(2) k'])
  have sql: "insert_sql env r1 h fs' ignore_errors replace = insert_sql env r1 h fs ignore_errors replace"
    by (simp add: insert_sql_def attrs value_list_cells cols cells)
  have c: "insert_sql env r1 h fs ignore_errors replace =
             insert_verb ignore_errors replace @ '' INTO '' @ full_table_name r
                     @ '' ('' @ attribute_list h fs @ '') VALUES (''
                     @ join '','' (map (\<lambda>name. if heading_is_blob h name then ''%s''
                                               else repr env (the (map_of fs name)))
                                     (present_columns h fs))
                     @ '')''"
    by (simp add: insert_sql_def from_clause_def full_table_name_heading [OF assms(2)] value_list_cells)
  have d: "insert_rel env r t ignore_errors replace c =
           (Inr (), r1,
            query (insert_verb ignore_errors replace @ '' INTO '' @ full_table_name r
                     @ '' ('' @ attribute_list h fs @ '') VALUES (''
                     @ join '','' (map (\<lambda>name. if heading_is_blob h name then ''%s''
                                               else repr env (the (map_of fs name)))
                                     (present_columns h fs))
                     @ '')'')
                  (map (\<lambda>name. pack env (the (map_of fs name)))
                       (filter (heading_is_blob h) (present_columns h fs))) c1)"
    unfolding a c insert_args_blobs by (rule refl)
  have e: "\<exists>args'. insert_rel env r t' ignore_errors replace c =
               (Inr (), r1,
                query (insert_verb ignore_errors replace @ '' INTO '' @ full_table_name r
                     @ '' ('' @ attribute_list h fs @ '') VALUES (''
                     @ join '','' (map (\<lambda>name. if heading_is_blob h name then ''%s''
                                               else repr env (the (map_of fs name)))
                                     (present_columns h fs))
                     @ '')'') args' c1)"
    unfolding b sql c by (rule exI) (rule refl)
  show ?thesis
    using d e by (rule conjI)
qed

theorem insert_blob_encoding_witness:
  "known_fields ex_heading [(''photo'', ''xx''), (''subject_id'', ''7'')]
   \<and> insert_rel (ex_env False ''no'') subject_loaded
        (Mapping [(''photo'', ''xx''), (''subject_id'', ''7'')]) False False ex_conn
     = (Inr (), subject_loaded,
        ex_conn\<lparr>queries :=
          [Query ''INSERT INTO `lab`.`subject` (`subject_id`,`photo`) VALUES ('7',%s)'' [''mYmxx'']]\<rparr>)"
proof -
  have h: "heading subject_loaded ex_conn = (ex_heading, subject_loaded, ex_conn)"
    by (simp add: heading_def subject_loaded_def subject_def heading_bool_def ex_heading_def)
  have k: "known_fields ex_heading [(''photo'', ''xx''), (''subject_id'', ''7'')]"
    by (simp add: known_fields_def heading_contains_def heading_names_def ex_heading_def)
  have t: "Mapping [(''photo'', ''xx''), (''subject_id'', ''7'')] = Mapping [(''photo'', ''xx''), (''subject_id'', ''7'')]
             \<and> Mapping [(''photo'', ''yy''), (''subject_id'', ''7'')] = Mapping [(''photo'', ''yy''), (''subject_id'', ''7'')]
           \<or> Mapping [(''photo'', ''xx''), (''subject_id'', ''7'')] = Void [(''photo'', ''xx''), (''subject_id'', ''7'')]
             \<and> Mapping [(''photo'', ''yy''), (''subject_id'', ''7'')] = Void [(''photo'', ''yy''), (''subject_id'', ''7'')]"
    by simp
  have f: "map fst [(''photo'', ''yy''), (''subject_id'', ''7'')] = map fst [(''photo'', ''xx''), (''subject_id'', ''7'')]"
    by simp
  have b: "\<forall>name. \<not> heading_is_blob ex_heading name \<longrightarrow>
             map_of [(''photo'', ''yy''), (''subject_id'', ''7'')] name = map_of [(''photo'', ''xx''), (''subject_id'', ''7'')] name"
    by (simp add: heading_is_blob_def ex_heading_def)
  have p: "present_columns ex_heading [(''photo'', ''xx''), (''subject_id'', ''7'')] = [''subject_id'', ''photo'']"
    by (simp add: present_columns_def heading_names_def ex_heading_def)
  have a: "attribute_list ex_heading [(''photo'', ''xx''), (''subject_id'', ''7'')] = ''`subject_id`,`photo`''"
    by (simp add: attribute_list_columns p)
  have e: "insert_rel (ex_env False ''no'') subject_loaded
        (Mapping [(''photo'', ''xx''), (''subject_id'', ''7'')]) False False ex_conn
     = (Inr (), subject_loaded,
        ex_conn\<lparr>queries :=
          [Query ''INSERT INTO `lab`.`subject` (`subject_id`,`photo`) VALUES ('7',%s)'' [''mYmxx'']]\<rparr>)"
    apply (subst insert_blob_encoding [OF t h k f b, of "ex_env False ''no''" False False, THEN conjunct1])
    apply (simp only: p a)
    apply (simp add: insert_verb_def full_table_name_def subject_loaded_def subject_def
          heading_is_blob_def ex_heading_def ex_env_def query_def ex_conn_def)
    done
  show ?thesis using k e by (rule conjI)
qed

subsection \<open>Insert: validation, statement count and verb\<close>

lemma issued_append: "queries c' = queries c @ qs \<Longrightarrow> issued c c' = qs"
  by (simp add: issued_def)

lemma unknown_field_Some:
  "\<not> known_fields h fs \<Longrightarrow>
     \<exists>f. unknown_field h (map fst fs) = Some f \<and> f \<in> fst ` set fs \<and> \<not> heading_contains h f"
  by (induction fs) (auto simp: known_fields_def unknown_field_def)

lemma is_insert_statement_sql:
  "is_insert_statement (Query (insert_sql env r h fs ignore_errors replace) args)"
  by (simp add: is_insert_statement_def insert_sql_def insert_verb_def)

lemma ex_heading_loaded:
  "heading subject_loaded ex_conn = (ex_heading, subject_loaded, ex_conn)"
  by (simp add: heading_def subject_loaded_def subject_def heading_bool_def ex_heading_def)

lemma ex_heading_resolved:
  "heading subject ex_conn =
     (ex_heading, subject_loaded,
      ex_conn\<lparr>queries := [Query ''SHOW TABLES in `lab`LIKE \"subject\"'' [],
                           HeadingQuery ''lab'' ''subject'']\<rparr>)"
  by (simp add: heading_def is_declared_def init_from_database_def query_def subject_loaded_def
        subject_def heading_bool_def ex_conn_def)

text \<open>
  C2, as amended. For a mapping or structured row with a field name that the resolved
  heading does not contain, insert raises the unknown-attribute error (\<open>KeyError\<close>) for
  such a field and leaves the relation and the connection exactly as resolving the heading
  left them: no INSERT or REPLACE statement is issued, at most the two queries of heading
  resolution are, and none at all when the heading is already loaded.
\<close>

theorem insert_unknown_field:
  assumes "t = Mapping fs \<or> t = Void fs"
    and "heading r c = (h, r1, c1)"
    and "\<not> known_fields h fs"
  shows "\<exists>f. f \<in> fst ` set fs \<and> \<not> heading_contains h f
           \<and> insert_rel env r t ignore_errors replace c = (Inl (KeyError f), r1, c1)
           \<and> filter is_insert_statement (issued c c1) = []
           \<and> length (issued c c1) \<le> 2
           \<and> (heading_bool (priv_heading r) \<longrightarrow> issued c c1 = [])"
proof -
  obtain f where f: "unknown_field h (map fst fs) = Some f" "f \<in> fst ` set fs"
      "\<not> heading_contains h f"
    using unknown_field_Some [OF assms(3)] by blast
  have res: "insert_rel env r t ignore_errors replace c = (Inl (KeyError f), r1, c1)"
    using assms(1,2) f(1) by (auto simp: insert_rel_def)
  obtain pre where pre: "queries c1 = queries c @ pre" "length pre \<le> 2"
      "filter is_insert_statement pre = []"
    using heading_queries [OF assms(2)] by blast
  have i: "issued c c1 = pre"
    by (rule issued_append [OF pre(1)])
  have l: "heading_bool (priv_heading r) \<longrightarrow> issued c c1 = []"
    using assms(2) by (auto simp: heading_loaded issued_def)
  show ?thesis
    using f(2,3) res pre(2,3) i l by blast
qed

text \<open>With the heading not yet loaded the claim as stated fails: the insert of an
  unknown field raises only after the existence query and the metadata query of heading
  resolution have been issued.\<close>

theorem insert_unknown_field_counterexample:
  "insert_rel (ex_env False ''no'') subject (Mapping [(''weight'', ''3'')]) False False ex_conn =
     (Inl (KeyError ''weight''), subject_loaded,
      ex_conn\<lparr>queries := [Query ''SHOW TABLES in `lab`LIKE \"subject\"'' [],
                           HeadingQuery ''lab'' ''subject'']\<rparr>)
   \<and> issued ex_conn (snd (snd (insert_rel (ex_env False ''no'') subject
        (Mapping [(''weight'', ''3'')]) False False ex_conn))) \<noteq> []"
proof -
  have u: "unknown_field ex_heading [''weight''] = Some ''weight''"
    by (simp add: unknown_field_def heading_contains_def heading_names_def ex_heading_def)
  have a: "insert_rel (ex_env False ''no'') subject (Mapping [(''weight'', ''3'')]) False False ex_conn =
     (Inl (KeyError ''weight''), subject_loaded,
      ex_conn\<lparr>queries := [Query ''SHOW TABLES in `lab`LIKE \"subject\"'' [],
                           HeadingQuery ''lab'' ''subject'']\<rparr>)"
    by (simp add: insert_rel_def ex_heading_resolved u)
  show ?thesis
    unfolding a by (simp add: issued_def ex_conn_def)
qed

theorem insert_unknown_field_witness:
  "\<not> known_fields ex_heading [(''weight'', ''3'')]
   \<and> insert_rel (ex_env False ''no'') subject_loaded (Mapping [(''weight'', ''3'')]) False False ex_conn =
       (Inl (KeyError ''weight''), subject_loaded, ex_conn)"
proof -
  have t: "Mapping [(''weight'', ''3'')] = Mapping [(''weight'', ''3'')]
           \<or> Mapping [(''weight'', ''3'')] = Void [(''weight'', ''3'')]"
    by simp
  have k: "\<not> known_fields ex_heading [(''weight'', ''3'')]"
    by (simp add: known_fields_def heading_contains_def heading_names_def ex_heading_def)
  from insert_unknown_field [OF t ex_heading_loaded k, of "ex_env False ''no''" False False] k
  show ?thesis by auto
qed

text \<open>
  C6, as amended. For a mapping or structured row all of whose fields are in the heading,
  insert succeeds and executes exactly one INSERT or REPLACE statement, the last query of
  the call; its verb is \<open>REPLACE\<close> when \<open>replace\<close> is set, otherwise
  \<open>INSERT IGNORE\<close> when \<open>ignore_errors\<close> is set, otherwise \<open>INSERT\<close>. The
  only other queries of the call are those of heading resolution; with the heading already
  loaded the statement is the only query.
\<close>

theorem insert_one_statement:
  assumes "t = Mapping fs \<or> t = Void fs"
    and "heading r c = (h, r1, c1)"
    and "known_fields h fs"
  shows "\<exists>sql args.
           sql = (if replace then ''REPLACE'' else if ignore_errors then ''INSERT IGNORE''
                  else ''INSERT'')
                 @ '' INTO '' @ full_table_name r @ '' ('' @ attribute_list h fs
                 @ '') VALUES ('' @ value_list env h fs @ '')''
           \<and> args = insert_args env h fs
           \<and> insert_rel env r t ignore_errors replace c = (Inr (), r1, query sql args c1)
           \<and> filter is_insert_statement (issued c (query sql args c1)) = [Query sql args]
           \<and> (heading_bool (priv_heading r) \<longrightarrow> issued c (query sql args c1) = [Query sql args])"
proof -
  let ?sql = "insert_sql env r1 h fs ignore_errors replace"
  let ?args = "insert_args env h fs"
  let ?c' = "query ?sql ?args c1"
  have res: "insert_rel env r t ignore_errors replace c = (Inr (), r1, ?c')"
    by (rule insert_rel_known [OF assms])
  have sql: "?sql = (if replace then ''REPLACE'' else if ignore_errors then ''INSERT IGNORE''
                     else ''INSERT'')
                    @ '' INTO '' @ full_table_name r @ '' ('' @ attribute_list h fs
                    @ '') VALUES ('' @ value_list env h fs @ '')''"
    by (simp add: insert_sql_def insert_verb_def from_clause_def full_table_name_heading [OF assms(2)])
  have q: "queries ?c' = queries c1 @ [Query ?sql ?args]"
    by (simp add: query_def)
  obtain pre where pre: "queries c1 = queries c @ pre" "filter is_insert_statement pre = []"
    using heading_queries [OF assms(2)] by blast
  have i: "issued c ?c' = pre @ [Query ?sql ?args]"
    by (rule issued_append) (simp add: q pre(1))
  have f: "filter is_insert_statement (issued c ?c') = [Query ?sql ?args]"
    by (simp add: i pre(2) is_insert_statement_sql)
  have l: "heading_bool (priv_heading r) \<longrightarrow> issued c ?c' = [Query ?sql ?args]"
    using assms(2) by (auto simp: heading_loaded issued_def query_def)
  show ?thesis
    using res sql f l by blast
qed

text \<open>With the heading not yet loaded the claim as stated fails: a valid insert
  executes three queries, the existence query, the metadata query and the INSERT.\<close>

theorem insert_one_statement_counterexample:
  "issued ex_conn (snd (snd (insert_rel (ex_env False ''no'') subject
        (Mapping [(''species'', ''mouse'')]) False False ex_conn))) =
     [Query ''SHOW TABLES in `lab`LIKE \"subject\"'' [],
      HeadingQuery ''lab'' ''subject'',
      Query ''INSERT INTO `lab`.`subject` (`species`) VALUES ('mouse')'' []]"
proof -
  have u: "unknown_field ex_heading [''species''] = None"
    by (simp add: unknown_field_def heading_contains_def heading_names_def ex_heading_def)
  have s: "insert_sql (ex_env False ''no'') subject_loaded ex_heading [(''species'', ''mouse'')] False False
             = ''INSERT INTO `lab`.`subject` (`species`) VALUES ('mouse')''"
    by (simp add: insert_sql_def insert_verb_def from_clause_def full_table_name_def
          attribute_list_def value_list_def heading_names_def heading_is_blob_def
          ex_heading_def ex_env_def subject_loaded_def subject_def)
  have a: "insert_args (ex_env False ''no'') ex_heading [(''species'', ''mouse'')] = []"
    by (simp add: insert_args_def heading_names_def heading_is_blob_def ex_heading_def)
  have r: "insert_rel (ex_env False ''no'') subject (Mapping [(''species'', ''mouse'')]) False False ex_conn =
     (Inr (), subject_loaded,
      query ''INSERT INTO `lab`.`subject` (`species`) VALUES ('mouse')'' []
        (ex_conn\<lparr>queries := [Query ''SHOW TABLES in `lab`LIKE \"subject\"'' [],
                           HeadingQuery ''lab'' ''subject'']\<rparr>))"
    by (simp add: insert_rel_def ex_heading_resolved u s a)
  show ?thesis
    unfolding r by (simp add: query_def issued_def ex_conn_def)
qed

theorem insert_one_statement_witness:
  "known_fields ex_heading [(''species'', ''mouse'')]
   \<and> insert_rel (ex_env False ''no'') subject_loaded (Mapping [(''species'', ''mouse'')]) True False ex_conn =
       (Inr (), subject_loaded,
        ex_conn\<lparr>queries := [Query ''INSERT IGNORE INTO `lab`.`subject` (`species`) VALUES ('mouse')'' []]\<rparr>)"
proof -
  have t: "Mapping [(''species'', ''mouse'')] = Mapping [(''species'', ''mouse'')]
           \<or> Mapping [(''species'', ''mouse'')] = Void [(''species'', ''mouse'')]"
    by simp
  have k: "known_fields ex_heading [(''species'', ''mouse'')]"
    by (simp add: known_fields_def heading_contains_def heading_names_def ex_heading_def)
  have al: "attribute_list ex_heading [(''species'', ''mouse'')] = ''`species`''"
    by (simp add: attribute_list_def heading_names_def ex_heading_def)
  have vl: "value_list (ex_env False ''no'') ex_heading [(''species'', ''mouse'')] = [CHR 0x27] @ ''mouse'' @ [CHR 0x27]"
    by (simp add: value_list_def heading_names_def heading_is_blob_def ex_heading_def ex_env_def)
  have ia: "insert_args (ex_env False ''no'') ex_heading [(''species'', ''mouse'')] = []"
    by (simp add: insert_args_def heading_names_def heading_is_blob_def ex_heading_def)
  have ft: "full_table_name subject_loaded = ''`lab`.`subject`''"
    by (simp add: full_table_name_def subject_loaded_def subject_def)
  from insert_one_statement [OF t ex_heading_loaded k, where replace = False
      and ignore_errors = True and env = "ex_env False ''no''"]
  have r: "insert_rel (ex_env False ''no'') subject_loaded (Mapping [(''species'', ''mouse'')]) True False ex_conn
         = (Inr (), subject_loaded,
            query ''INSERT IGNORE INTO `lab`.`subject` (`species`) VALUES ('mouse')'' [] ex_conn)"
    by (simp add: al vl ia ft)
  show ?thesis
    using k unfolding r by (simp add: query_def ex_conn_def)
qed

text \<open>
  C10. For a mapping or structured row all of whose fields are in the heading, an insert
  with both \<open>replace\<close> and \<open>ignore_errors\<close> set issues a \<open>REPLACE\<close> statement, and
  its whole result is the one of the same insert with \<open>ignore_errors\<close> unset.
\<close>

theorem replace_takes_precedence:
  assumes "t = Mapping fs \<or> t = Void fs"
    and "heading r c = (h, r1, c1)"
    and "known_fields h fs"
  shows "insert_rel env r t True True c =
           (Inr (), r1,
            query (''REPLACE INTO '' @ full_table_name r @ '' ('' @ attribute_list h fs
                     @ '') VALUES ('' @ value_list env h fs @ '')'')
                  (insert_args env h fs) c1)
         \<and> insert_rel env r t True True c = insert_rel env r t False True c"
proof -
  have sql: "insert_sql env r1 h fs ign True =
               ''REPLACE INTO '' @ full_table_name r @ '' ('' @ attribute_list h fs
                     @ '') VALUES ('' @ value_list env h fs @ '')''" for ign
    by (simp add: insert_sql_def insert_verb_def from_clause_def full_table_name_heading [OF assms(2)])
  show ?thesis
    unfolding insert_rel_known [OF assms] sql by simp
qed

theorem replace_takes_precedence_witness:
  "known_fields ex_heading [(''species'', ''mouse'')]
   \<and> insert_rel (ex_env False ''no'') subject_loaded (Mapping [(''species'', ''mouse'')]) True True ex_conn =
       (Inr (), subject_loaded,
        ex_conn\<lparr>queries := [Query ''REPLACE INTO `lab`.`subject` (`species`) VALUES ('mouse')'' []]\<rparr>)
   \<and> insert_rel (ex_env False ''no'') subject_loaded (Mapping [(''species'', ''mouse'')]) True True ex_conn =
       insert_rel (ex_env False ''no'') subject_loaded (Mapping [(''species'', ''mouse'')]) False True ex_conn"
proof -
  have t: "Mapping [(''species'', ''mouse'')] = Mapping [(''species'', ''mouse'')]
           \<or> Mapping [(''species'', ''mouse'')] = Void [(''species'', ''mouse'')]"
    by simp
  have k: "known_fields ex_heading [(''species'', ''mouse'')]"
    by (simp add: known_fields_def heading_contains_def heading_names_def ex_heading_def)
  have al: "attribute_list ex_heading [(''species'', ''mouse'')] = ''`species`''"
    by (simp add: attribute_list_def heading_names_def ex_heading_def)
  have vl: "value_list (ex_env False ''no'') ex_heading [(''species'', ''mouse'')] = [CHR 0x27] @ ''mouse'' @ [CHR 0x27]"
    by (simp add: value_list_def heading_names_def heading_is_blob_def ex_heading_def ex_env_def)
  have ia: "insert_args (ex_env False ''no'') ex_heading [(''species'', ''mouse'')] = []"
    by (simp add: insert_args_def heading_names_def heading_is_blob_def ex_heading_def)
  have ft: "full_table_name subject_loaded = ''`lab`.`subject`''"
    by (simp add: full_table_name_def subject_loaded_def subject_def)
  note r = replace_takes_precedence [OF t ex_heading_loaded k, of "ex_env False ''no''"]
  have a: "insert_rel (ex_env False ''no'') subject_loaded (Mapping [(''species'', ''mouse'')]) True True ex_conn =
       (Inr (), subject_loaded,
        ex_conn\<lparr>queries := [Query ''REPLACE INTO `lab`.`subject` (`species`) VALUES ('mouse')'' []]\<rparr>)"
    apply (subst r [THEN conjunct1])
    apply (simp only: al vl ia ft)
    apply (simp add: query_def ex_conn_def)
    done
  show ?thesis
    using k a r [THEN conjunct2] by blast
qed

subsection \<open>Delete\<close>

text \<open>
  C8. With safe mode off, \<open>delete\<close> is \<open>delete_quick\<close>, without a prompt. With safe
  mode on it prompts once; on the answer \<open>yes\<close> it delegates to \<open>delete_quick\<close>, on
  any other answer it returns with the prompt as its only effect: no query is issued, and
  catalogue and dependency graph are unchanged. \<open>delete_quick\<close> issues the one DELETE
  statement on the relation's table under its restriction.
\<close>

theorem delete_safemode:
  "(\<not> safemode env \<longrightarrow> delete_rel env r c = delete_quick r c)
   \<and> (safemode env \<and> user_choice env delete_msg ''no'' = ''yes'' \<longrightarrow>
        delete_rel env r c = delete_quick r (c\<lparr>prompts := prompts c @ [delete_msg]\<rparr>))
   \<and> (safemode env \<and> user_choice env delete_msg ''no'' \<noteq> ''yes'' \<longrightarrow>
        delete_rel env r c = c\<lparr>prompts := prompts c @ [delete_msg]\<rparr>)
   \<and> delete_quick r c = c\<lparr>queries := queries c @
        [Query (''DELETE FROM '' @ full_table_name r @ where_clause r) []]\<rparr>"
  by (simp add: delete_rel_def prompt_def delete_quick_def query_def from_clause_def)

theorem delete_safemode_witness:
  "delete_rel (ex_env False ''no'') subject ex_conn =
     ex_conn\<lparr>queries := [Query ''DELETE FROM `lab`.`subject`'' []]\<rparr>
   \<and> delete_rel (ex_env True ''yes'') subject ex_conn =
     ex_conn\<lparr>queries := [Query ''DELETE FROM `lab`.`subject`'' []], prompts := [delete_msg]\<rparr>
   \<and> delete_rel (ex_env True ''no'') subject ex_conn = ex_conn\<lparr>prompts := [delete_msg]\<rparr>"
proof -
  have q: "delete_quick subject c =
             c\<lparr>queries := queries c @ [Query ''DELETE FROM `lab`.`subject`'' []]\<rparr>"
    for c :: "(string, string list) connection"
    using delete_safemode [of "ex_env False ''no''" subject c]
    by (simp add: full_table_name_def subject_def)
  have a: "delete_rel (ex_env False ''no'') subject ex_conn = delete_quick subject ex_conn"
    using delete_safemode [of "ex_env False ''no''" subject ex_conn]
    by (simp add: ex_env_def)
  have b: "delete_rel (ex_env True ''yes'') subject ex_conn =
             delete_quick subject (ex_conn\<lparr>prompts := prompts ex_conn @ [delete_msg]\<rparr>)"
    using delete_safemode [of "ex_env True ''yes''" subject ex_conn]
    by (simp add: ex_env_def)
  have c: "delete_rel (ex_env True ''no'') subject ex_conn =
             ex_conn\<lparr>prompts := prompts ex_conn @ [delete_msg]\<rparr>"
    using delete_safemode [of "ex_env True ''no''" subject ex_conn]
    by (simp add: ex_env_def)
  show ?thesis
    unfolding a b c q by (simp add: ex_conn_def)
qed

subsection \<open>Batch insert\<close>

lemma then_insert_simps:
  "then_insert env ignore_errors replace (Inl e, r, c) row = (Inl e, r, c)"
  "then_insert env ignore_errors replace (Inr u, r, c) row = insert_rel env r row ignore_errors replace c"
  by (simp_all add: then_insert_def)

lemma foldl_then_insert_Inl:
  "foldl (then_insert env ignore_errors replace) (Inl e, r, c) rows = (Inl e, r, c)"
  by (induction rows) (simp_all add: then_insert_simps)

lemma iter_insert_foldl:
  "iter_insert env r rows ignore_errors replace c =
     foldl (then_insert env ignore_errors replace) (Inr (), r, c) rows"
proof (induction rows arbitrary: r c)
  case Nil
  show ?case by simp
next
  case (Cons row rows)
  obtain res r' c' where i: "insert_rel env r row ignore_errors replace c = (res, r', c')"
    by (cases "insert_rel env r row ignore_errors replace c") auto
  show ?case
  proof (cases res)
    case (Inl e)
    then show ?thesis
      by (simp add: i then_insert_simps foldl_then_insert_Inl)
  next
    case (Inr u)
    then show ?thesis
      using Cons.IH [of r' c'] by (simp add: i then_insert_simps)
  qed
qed

lemma insert_rel_success:
  assumes "insert_rel env r t ignore_errors replace c = (Inr u, r', c')"
  shows "\<exists>h c1. heading r c = (h, r', c1) \<and> known_fields h (tup_fields t)
           \<and> c' = query (insert_sql env r' h (tup_fields t) ignore_errors replace)
                        (insert_args env h (tup_fields t)) c1"
proof -
  obtain h r1 c1 where h: "heading r c = (h, r1, c1)"
    by (cases "heading r c") auto
  show ?thesis
    using assms
    by (cases t)
       (auto simp: insert_rel_def h tup_fields_def known_fields_def unknown_field_def
          find_None_iff list_all_iff split: option.splits)
qed

lemma insert_rel_issued:
  assumes "insert_rel env r t ignore_errors replace c = (Inr u, r', c')"
  shows "\<exists>qs. queries c' = queries c @ qs \<and> length (filter is_insert_statement qs) = 1"
proof -
  obtain h c1 where h: "heading r c = (h, r', c1)"
      and c': "c' = query (insert_sql env r' h (tup_fields t) ignore_errors replace)
                        (insert_args env h (tup_fields t)) c1"
    using insert_rel_success [OF assms] by blast
  obtain pre where pre: "queries c1 = queries c @ pre" "filter is_insert_statement pre = []"
    using heading_queries [OF h] by blast
  have "queries c' = queries c @ (pre @ [Query (insert_sql env r' h (tup_fields t) ignore_errors replace)
                        (insert_args env h (tup_fields t))])"
    by (simp add: c' query_def pre(1))
  moreover have "length (filter is_insert_statement
      (pre @ [Query (insert_sql env r' h (tup_fields t) ignore_errors replace)
                        (insert_args env h (tup_fields t))])) = 1"
    by (simp add: pre(2) is_insert_statement_sql)
  ultimately show ?thesis by blast
qed

lemma iter_insert_count:
  "iter_insert env r rows ignore_errors replace c = (Inr u, r', c') \<Longrightarrow>
     \<exists>qs. queries c' = queries c @ qs \<and> length (filter is_insert_statement qs) = length rows"
proof (induction rows arbitrary: r c)
  case Nil
  then show ?case by simp
next
  case (Cons row rows)
  obtain res r1 c1 where i: "insert_rel env r row ignore_errors replace c = (res, r1, c1)"
    by (cases "insert_rel env r row ignore_errors replace c") auto
  show ?case
  proof (cases res)
    case (Inl e)
    then show ?thesis using Cons.prems by (simp add: i)
  next
    case (Inr v)
    then have rest: "iter_insert env r1 rows ignore_errors replace c1 = (Inr u, r', c')"
      using Cons.prems by (simp add: i)
    obtain qs where qs: "queries c1 = queries c @ qs" "length (filter is_insert_statement qs) = 1"
      using insert_rel_issued [of env r row ignore_errors replace c v r1 c1] i Inr by auto
    obtain qs' where qs': "queries c' = queries c1 @ qs'"
        "length (filter is_insert_statement qs') = length rows"
      using Cons.IH [OF rest] by blast
    have "queries c' = queries c @ (qs @ qs')"
      by (simp add: qs(1) qs'(1))
    moreover have "length (filter is_insert_statement (qs @ qs')) = length (row # rows)"
      by (simp add: qs(2) qs'(2))
    ultimately show ?thesis by blast
  qed
qed

lemma iter_insert_loaded:
  "heading_bool (priv_heading r) \<Longrightarrow>
   iter_insert env r rows ignore_errors replace c = (Inr u, r', c') \<Longrightarrow>
     queries c' = queries c @
       map (\<lambda>row. Query (insert_sql env r (priv_heading r) (tup_fields row) ignore_errors replace)
                         (insert_args env (priv_heading r) (tup_fields row))) rows"
proof (induction rows arbitrary: c)
  case Nil
  then show ?case by simp
next
  case (Cons row rows)
  obtain res r1 c1 where i: "insert_rel env r row ignore_errors replace c = (res, r1, c1)"
    by (cases "insert_rel env r row ignore_errors replace c") auto
  show ?case
  proof (cases res)
    case (Inl e)
    then show ?thesis using Cons.prems by (simp add: i)
  next
    case (Inr v)
    have s: "\<exists>h c0. heading r c = (h, r1, c0) \<and> known_fields h (tup_fields row)
           \<and> c1 = query (insert_sql env r1 h (tup_fields row) ignore_errors replace)
                        (insert_args env h (tup_fields row)) c0"
      using insert_rel_success [of env r row ignore_errors replace c v r1 c1] i Inr by simp
    have r1: "r1 = r"
      and c1: "c1 = query (insert_sql env r (priv_heading r) (tup_fields row) ignore_errors replace)
                        (insert_args env (priv_heading r) (tup_fields row)) c"
      using s by (auto simp: heading_loaded [OF Cons.prems(1)])
    have rest: "iter_insert env r rows ignore_errors replace c1 = (Inr u, r', c')"
      using Cons.prems(2) Inr by (simp add: i r1)
    show ?thesis
      using Cons.IH [OF Cons.prems(1) rest] by (simp add: c1 query_def)
  qed
qed

lemma ex_heading_cached:
  "heading subject_loaded c = (ex_heading, subject_loaded, c)"
  by (simp add: heading_def subject_loaded_def subject_def heading_bool_def ex_heading_def)

lemma ex_insert_species:
  "insert_rel (ex_env False ''no'') subject_loaded (Mapping [(''species'', ''mouse'')]) False False c =
     (Inr (), subject_loaded,
      query ''INSERT INTO `lab`.`subject` (`species`) VALUES ('mouse')'' [] c)"
proof -
  have u: "unknown_field ex_heading [''species''] = None"
    by (simp add: unknown_field_def heading_contains_def heading_names_def ex_heading_def)
  have s: "insert_sql (ex_env False ''no'') subject_loaded ex_heading [(''species'', ''mouse'')] False False
             = ''INSERT INTO `lab`.`subject` (`species`) VALUES ('mouse')''"
    by (simp add: insert_sql_def insert_verb_def from_clause_def full_table_name_def
          attribute_list_def value_list_def heading_names_def heading_is_blob_def
          ex_heading_def ex_env_def subject_loaded_def subject_def)
  have a: "insert_args (ex_env False ''no'') ex_heading [(''species'', ''mouse'')] = []"
    by (simp add: insert_args_def heading_names_def heading_is_blob_def ex_heading_def)
  show ?thesis
    by (simp add: insert_rel_def ex_heading_cached u s a)
qed

lemma ex_insert_subject_id:
  "insert_rel (ex_env False ''no'') subject_loaded (Mapping [(''subject_id'', ''7'')]) False False c =
     (Inr (), subject_loaded,
      query ''INSERT INTO `lab`.`subject` (`subject_id`) VALUES ('7')'' [] c)"
proof -
  have u: "unknown_field ex_heading [''subject_id''] = None"
    by (simp add: unknown_field_def heading_contains_def heading_names_def ex_heading_def)
  have s: "insert_sql (ex_env False ''no'') subject_loaded ex_heading [(''subject_id'', ''7'')] False False
             = ''INSERT INTO `lab`.`subject` (`subject_id`) VALUES ('7')''"
    by (simp add: insert_sql_def insert_verb_def from_clause_def full_table_name_def
          attribute_list_def value_list_def heading_names_def heading_is_blob_def
          ex_heading_def ex_env_def subject_loaded_def subject_def)
  have a: "insert_args (ex_env False ''no'') ex_heading [(''subject_id'', ''7'')] = []"
    by (simp add: insert_args_def heading_names_def heading_is_blob_def ex_heading_def)
  show ?thesis
    by (simp add: insert_rel_def ex_heading_cached u s a)
qed

text \<open>
  C9, as amended. \<open>iter_insert\<close> and \<open>batch_insert\<close> over a sequence of records are
  the successive single-row inserts with the same keyword arguments, in sequence order,
  ending at the first insert that raises. When all of them succeed, exactly as many INSERT
  or REPLACE statements are executed as there are records; with the heading already loaded
  these are the only queries, the i-th being the single-row statement of the i-th record.
\<close>

theorem iter_insert_successive:
  "iter_insert env r rows ignore_errors replace c = successive_inserts env r rows ignore_errors replace c
   \<and> batch_insert env r rows ignore_errors replace c = successive_inserts env r rows ignore_errors replace c
   \<and> (\<forall>u r' c'. iter_insert env r rows ignore_errors replace c = (Inr u, r', c') \<longrightarrow>
          length (filter is_insert_statement (issued c c')) = length rows
          \<and> (heading_bool (priv_heading r) \<longrightarrow>
               issued c c' =
                 map (\<lambda>row. Query (insert_sql env r (priv_heading r) (tup_fields row) ignore_errors replace)
                         (insert_args env (priv_heading r) (tup_fields row))) rows))"
proof (intro conjI allI impI)
  show a: "iter_insert env r rows ignore_errors replace c = successive_inserts env r rows ignore_errors replace c"
    by (simp add: successive_inserts_def iter_insert_foldl)
  show "batch_insert env r rows ignore_errors replace c = successive_inserts env r rows ignore_errors replace c"
    by (simp add: batch_insert_def a)
next
  fix u r' c'
  assume i: "iter_insert env r rows ignore_errors replace c = (Inr u, r', c')"
  show "length (filter is_insert_statement (issued c c')) = length rows"
    using iter_insert_count [OF i] by (auto simp: issued_def)
  assume l: "heading_bool (priv_heading r)"
  show "issued c c' =
                 map (\<lambda>row. Query (insert_sql env r (priv_heading r) (tup_fields row) ignore_errors replace)
                         (insert_args env (priv_heading r) (tup_fields row))) rows"
    using iter_insert_loaded [OF l i] by (simp add: issued_def)
qed

text \<open>With the heading not yet loaded the count of the claim as stated fails: two
  records take four queries, the first insert resolving the heading before its statement.\<close>

theorem iter_insert_successive_counterexample:
  "iter_insert (ex_env False ''no'') subject
     [Mapping [(''species'', ''mouse'')], Mapping [(''subject_id'', ''7'')]] False False ex_conn =
     (Inr (), subject_loaded,
      ex_conn\<lparr>queries :=
        [Query ''SHOW TABLES in `lab`LIKE \"subject\"'' [],
         HeadingQuery ''lab'' ''subject'',
         Query ''INSERT INTO `lab`.`subject` (`species`) VALUES ('mouse')'' [],
         Query ''INSERT INTO `lab`.`subject` (`subject_id`) VALUES ('7')'' []]\<rparr>)
   \<and> length (issued ex_conn (snd (snd (iter_insert (ex_env False ''no'') subject
     [Mapping [(''species'', ''mouse'')], Mapping [(''subject_id'', ''7'')]] False False ex_conn)))) = 4"
proof -
  have u: "unknown_field ex_heading [''species''] = None"
    by (simp add: unknown_field_def heading_contains_def heading_names_def ex_heading_def)
  have s: "insert_sql (ex_env False ''no'') subject_loaded ex_heading [(''species'', ''mouse'')] False False
             = ''INSERT INTO `lab`.`subject` (`species`) VALUES ('mouse')''"
    by (simp add: insert_sql_def insert_verb_def from_clause_def full_table_name_def
          attribute_list_def value_list_def heading_names_def heading_is_blob_def
          ex_heading_def ex_env_def subject_loaded_def subject_def)
  have a: "insert_args (ex_env False ''no'') ex_heading [(''species'', ''mouse'')] = []"
    by (simp add: insert_args_def heading_names_def heading_is_blob_def ex_heading_def)
  have first: "insert_rel (ex_env False ''no'') subject (Mapping [(''species'', ''mouse'')]) False False ex_conn =
     (Inr (), subject_loaded,
      query ''INSERT INTO `lab`.`subject` (`species`) VALUES ('mouse')'' []
        (ex_conn\<lparr>queries := [Query ''SHOW TABLES in `lab`LIKE \"subject\"'' [],
                           HeadingQuery ''lab'' ''subject'']\<rparr>))"
    by (simp add: insert_rel_def ex_heading_resolved u s a)
  have r: "iter_insert (ex_env False ''no'') subject
     [Mapping [(''species'', ''mouse'')], Mapping [(''subject_id'', ''7'')]] False False ex_conn =
     (Inr (), subject_loaded,
      ex_conn\<lparr>queries :=
        [Query ''SHOW TABLES in `lab`LIKE \"subject\"'' [],
         HeadingQuery ''lab'' ''subject'',
         Query ''INSERT INTO `lab`.`subject` (`species`) VALUES ('mouse')'' [],
         Query ''INSERT INTO `lab`.`subject` (`subject_id`) VALUES ('7')'' []]\<rparr>)"
    by (simp add: first ex_insert_subject_id query_def)
  show ?thesis
    unfolding r by (simp add: issued_def ex_conn_def)
qed

theorem iter_insert_successive_witness:
  "iter_insert (ex_env False ''no'') subject_loaded
     [Mapping [(''species'', ''mouse'')], Mapping [(''subject_id'', ''7'')]] False False ex_conn =
     (Inr (), subject_loaded,
      ex_conn\<lparr>queries :=
        [Query ''INSERT INTO `lab`.`subject` (`species`) VALUES ('mouse')'' [],
         Query ''INSERT INTO `lab`.`subject` (`subject_id`) VALUES ('7')'' []]\<rparr>)
   \<and> successive_inserts (ex_env False ''no'') subject_loaded
     [Mapping [(''species'', ''mouse'')], Mapping [(''subject_id'', ''7'')]] False False ex_conn =
     (Inr (), subject_loaded,
      ex_conn\<lparr>queries :=
        [Query ''INSERT INTO `lab`.`subject` (`species`) VALUES ('mouse')'' [],
         Query ''INSERT INTO `lab`.`subject` (`subject_id`) VALUES ('7')'' []]\<rparr>)
   \<and> length (filter is_insert_statement (issued ex_conn
        (ex_conn\<lparr>queries :=
        [Query ''INSERT INTO `lab`.`subject` (`species`) VALUES ('mouse')'' [],
         Query ''INSERT INTO `lab`.`subject` (`subject_id`) VALUES ('7')'' []]\<rparr>))) = 2"
proof -
  let ?rows = "[Mapping [(''species'', ''mouse'')], Mapping [(''subject_id'', ''7'')]]"
  let ?c' = "ex_conn\<lparr>queries :=
        [Query ''INSERT INTO `lab`.`subject` (`species`) VALUES ('mouse')'' [],
         Query ''INSERT INTO `lab`.`subject` (`subject_id`) VALUES ('7')'' []]\<rparr>"
  have e: "iter_insert (ex_env False ''no'') subject_loaded ?rows False False ex_conn =
             (Inr (), subject_loaded, ?c')"
    by (simp add: ex_insert_species ex_insert_subject_id query_def ex_conn_def)
  note t = iter_insert_successive [of "ex_env False ''no''" subject_loaded ?rows False False ex_conn]
  have s: "successive_inserts (ex_env False ''no'') subject_loaded ?rows False False ex_conn =
             (Inr (), subject_loaded, ?c')"
    using t [THEN conjunct1] e by simp
  have n: "length (filter is_insert_statement (issued ex_conn ?c')) = 2"
    using t [THEN conjunct2, THEN conjunct2, rule_format, OF e, THEN conjunct1] by simp
  show ?thesis
    using e s n by (intro conjI)
qed

subsection \<open>Drop: the order of the cascade\<close>
















end
